theory Spec2Isabelle
  imports Complex_Main "HOL-Library.Multiset"
begin

section \<open>Generate\_Subset\_By\_Column\_Spark: a shallow embedding\<close>

text \<open>
  The notebook is a sequence of cells that drive a dataframe engine. Each cell is embedded
  as a HOL function. A dataframe is a list of rows; the engine gives no meaning to the order
  of the rows, so tables are compared as multisets of rows. Python exceptions and the
  engine's argument checks are values of the type \<open>error\<close>.
\<close>

datatype error = IndexError | ZeroDivisionError | IllegalArgumentException

subsection \<open>Filename generator (cell \<open>full_filename\<close>)\<close>

text \<open>
  \<^verbatim>\<open>suff[index + 1]\<close>: Python subscription of a sequence by an integer. An index in
  \<open>[0, len)\<close> reads that position, an index in \<open>[-len, 0)\<close> counts from the end, any
  other index raises \<^verbatim>\<open>IndexError\<close>.
\<close>

definition py_getitem :: "'a list \<Rightarrow> int \<Rightarrow> error + 'a" where
  "py_getitem xs i =
     (if 0 \<le> i \<and> i < int (length xs) then Inr (xs ! nat i)
      else if - int (length xs) \<le> i \<and> i < 0 then Inr (xs ! nat (i + int (length xs)))
      else Inl IndexError)"

text \<open>
  \<^verbatim>\<open>os.path.join(a, b)\<close> on a POSIX system, for two components: an absolute \<open>b\<close>
  replaces \<open>a\<close>; otherwise the components are joined by one separator unless \<open>a\<close> is empty
  or already ends in one.
\<close>

definition os_path_join :: "string \<Rightarrow> string \<Rightarrow> string" where
  "os_path_join a b =
     (if take 1 b = ''/'' then b
      else if a = [] \<or> last a = CHR ''/'' then a @ b
      else a @ ''/'' @ b)"

text \<open>
  \<^verbatim>\<open>return os.path.join(fpath, fbase + suff[index + 1] + ftype)\<close>
\<close>

definition full_filename :: "int \<Rightarrow> string \<Rightarrow> string \<Rightarrow> string list \<Rightarrow> string \<Rightarrow> error + string" where
  "full_filename index fpath fbase suff ftype =
     (case py_getitem suff (index + 1) of
        Inl e \<Rightarrow> Inl e
      | Inr s \<Rightarrow> Inr (os_path_join fpath (fbase @ s @ ftype)))"

text \<open>
  The configuration of the notebook. \<^verbatim>\<open>calendar.month_abbr\<close> has thirteen entries: the
  empty string at position 0, then the month abbreviations (here in the C locale).
\<close>

definition month_abbr :: "string list" where
  "month_abbr = ['''', ''Jan'', ''Feb'', ''Mar'', ''Apr'', ''May'', ''Jun'',
                 ''Jul'', ''Aug'', ''Sep'', ''Oct'', ''Nov'', ''Dec'']"

definition local_path :: string where
  "local_path = ''/project_data/data_asset''"

definition file_path :: string where
  "file_path = local_path"

definition file_base :: string where
  "file_base = ''customers_''"

definition suffixes :: "string list" where
  "suffixes = month_abbr"

definition file_type :: string where
  "file_type = ''.csv''"

subsection \<open>Period reader: the label coercion\<close>








subsection \<open>Merge-aggregate accumulator (the loop over \<open>file_sequence\<close>)\<close>

text \<open>
  A row of \<^verbatim>\<open>df_merged\<close>: the identifier, the label (nullable in the engine) and the
  period count. The counts are far below the engine's 64-bit range, so they are integers.
\<close>

record 'k row =
  ident :: 'k
  label :: "int option"
  period_count :: int

text \<open>\<^verbatim>\<open>.withColumn('period_count', lit(1))\<close>\<close>

definition with_period_count :: "('k \<times> int option) list \<Rightarrow> 'k row list" where
  "with_period_count rows = map (\<lambda>(k, l). \<lparr>ident = k, label = l, period_count = 1\<rparr>) rows"

text \<open>\<^verbatim>\<open>.union(df_merged)\<close>: all rows of both tables, duplicates kept.\<close>

definition union_df :: "'k row list \<Rightarrow> 'k row list \<Rightarrow> 'k row list" where
  "union_df a b = a @ b"

text \<open>The engine's \<^verbatim>\<open>max\<close> aggregate skips nulls; a group of nulls only gives null.\<close>

fun max_label :: "int option \<Rightarrow> int option \<Rightarrow> int option" where
  "max_label None y = y"
| "max_label (Some a) None = Some a"
| "max_label (Some a) (Some b) = Some (max a b)"

definition agg_max :: "int option list \<Rightarrow> int option" where
  "agg_max ls = foldr max_label ls None"

definition agg_sum :: "int list \<Rightarrow> int" where
  "agg_sum cs = sum_list cs"

definition group_of :: "'k \<Rightarrow> 'k row list \<Rightarrow> 'k row list" where
  "group_of k df = filter (\<lambda>r. ident r = k) df"

text \<open>
  \<^verbatim>\<open>.groupBy(id_column).agg(max(label_column), sum('period_count'))\<close>: one output row per
  distinct identifier. The engine leaves the order of the groups open; the model lists them
  in the order of \<open>remdups\<close>.
\<close>

definition groupBy_agg :: "'k row list \<Rightarrow> 'k row list" where
  "groupBy_agg df =
     map (\<lambda>k. \<lparr>ident = k,
               label = agg_max (map label (group_of k df)),
               period_count = agg_sum (map period_count (group_of k df))\<rparr>)
         (remdups (map ident df))"

text \<open>One iteration of the loop: the new period's rows, tagged, united with the prior result and aggregated.\<close>

definition merge_step :: "'k row list \<Rightarrow> ('k \<times> int option) list \<Rightarrow> 'k row list" where
  "merge_step df_merged period = groupBy_agg (union_df (with_period_count period) df_merged)"

text \<open>The whole loop, from the empty dataframe \<^verbatim>\<open>spark.createDataFrame([], merge_schema)\<close>.\<close>

definition merge_all :: "('k \<times> int option) list list \<Rightarrow> 'k row list" where
  "merge_all periods = foldl merge_step [] periods"

text \<open>The two aggregates of one identifier's group, as \<open>groupBy_agg\<close> computes them.\<close>

definition group_label :: "'k row list \<Rightarrow> 'k \<Rightarrow> int option" where
  "group_label df k = agg_max (map label (group_of k df))"

definition group_count :: "'k row list \<Rightarrow> 'k \<Rightarrow> int" where
  "group_count df k = agg_sum (map period_count (group_of k df))"

text \<open>The vocabulary of the claims about the merged table.\<close>

definition occurrences :: "'k \<Rightarrow> ('k \<times> int option) list list \<Rightarrow> ('k \<times> int option) list" where
  "occurrences k periods = filter (\<lambda>r. fst r = k) (concat periods)"

definition periods_containing :: "'k \<Rightarrow> ('k \<times> int option) list list \<Rightarrow> nat" where
  "periods_containing k periods = length (filter (\<lambda>p. k \<in> fst ` set p) periods)"

definition binary_labels :: "('k \<times> int option) list \<Rightarrow> bool" where
  "binary_labels period = list_all (\<lambda>r. snd r = Some 0 \<or> snd r = Some 1) period"

subsection \<open>Eligibility filter and sampling fractions\<close>

text \<open>\<^verbatim>\<open>df_merged.filter('period_count >= {}'.format(min_periods))\<close>\<close>

definition eligible :: "int \<Rightarrow> 'k row list \<Rightarrow> 'k row list" where
  "eligible min_periods df = filter (\<lambda>r. min_periods \<le> period_count r) df"

text \<open>
  \<^verbatim>\<open>n_total = df_merged.count()\<close> and
  \<^verbatim>\<open>n_positive = df_merged.filter(label_column + ' > 0').count()\<close>; a null label does
  not satisfy the comparison.
\<close>

definition n_total :: "'k row list \<Rightarrow> int" where
  "n_total df = int (length df)"

definition label_positive :: "'k row \<Rightarrow> bool" where
  "label_positive r = (case label r of None \<Rightarrow> False | Some l \<Rightarrow> 0 < l)"

definition n_positive :: "'k row list \<Rightarrow> int" where
  "n_positive df = int (length (filter label_positive df))"

text \<open>
  Python's true division raises \<^verbatim>\<open>ZeroDivisionError\<close> on a zero divisor. The notebook
  computes with floats; the model computes with reals, so rounding is not modelled.
\<close>

definition py_truediv :: "real \<Rightarrow> real \<Rightarrow> error + real" where
  "py_truediv a b = (if b = 0 then Inl ZeroDivisionError else Inr (a / b))"

text \<open>\<^verbatim>\<open>f_positive = n_sub_ids*p_sub_positive/n_positive\<close>\<close>

definition f_positive :: "int \<Rightarrow> real \<Rightarrow> int \<Rightarrow> error + real" where
  "f_positive n_sub_ids p_sub_positive n_pos =
     py_truediv (real_of_int n_sub_ids * p_sub_positive) (real_of_int n_pos)"

text \<open>\<^verbatim>\<open>f_negative = n_sub_ids*(1-p_sub_positive)/(n_total-n_positive)\<close>\<close>

definition f_negative :: "int \<Rightarrow> real \<Rightarrow> int \<Rightarrow> int \<Rightarrow> error + real" where
  "f_negative n_sub_ids p_sub_positive n_tot n_pos =
     py_truediv (real_of_int n_sub_ids * (1 - p_sub_positive)) (real_of_int (n_tot - n_pos))"

text \<open>
  The cell computes \<^verbatim>\<open>f_positive\<close> first and \<^verbatim>\<open>f_negative\<close> second; the first
  exception ends the cell. The result is the pair \<open>(f_positive, f_negative)\<close>.
\<close>

definition sampling_fractions :: "int \<Rightarrow> real \<Rightarrow> int \<Rightarrow> int \<Rightarrow> error + (real \<times> real)" where
  "sampling_fractions n_sub_ids p_sub_positive n_tot n_pos =
     (case f_positive n_sub_ids p_sub_positive n_pos of
        Inl e \<Rightarrow> Inl e
      | Inr fp \<Rightarrow>
          (case f_negative n_sub_ids p_sub_positive n_tot n_pos of
             Inl e \<Rightarrow> Inl e
           | Inr fn \<Rightarrow> Inr (fp, fn)))"

subsection \<open>Stratified sampler (\<open>sampleBy\<close>)\<close>

text \<open>
  The engine's \<^verbatim>\<open>sampleBy(col, fractions, seed)\<close> first requires every fraction to lie in
  \<open>[0, 1]\<close>, then keeps a row when a uniform draw is below
  \<^verbatim>\<open>fractions.getOrElse(stratum, 0.0)\<close>. A draw is \<open>k / 2^53\<close> for a 53-bit number \<open>k\<close>;
  the generator itself is a parameter \<open>bits\<close>, giving the number drawn for a seed and a row
  position. The Python dictionary is an association list.
\<close>

definition draw :: "nat \<Rightarrow> real" where
  "draw k = real (k mod 2 ^ 53) / 2 ^ 53"

definition fraction_of :: "(int \<times> real) list \<Rightarrow> int option \<Rightarrow> real" where
  "fraction_of fractions stratum =
     (case stratum of
        None \<Rightarrow> 0
      | Some l \<Rightarrow> (case map_of fractions l of None \<Rightarrow> 0 | Some f \<Rightarrow> f))"

definition sampleBy ::
  "(int \<Rightarrow> nat \<Rightarrow> nat) \<Rightarrow> 'k row list \<Rightarrow> (int \<times> real) list \<Rightarrow> int \<Rightarrow> error + 'k row list" where
  "sampleBy bits df fractions seed =
     (if list_all (\<lambda>kv. 0 \<le> snd kv \<and> snd kv \<le> 1) fractions
      then Inr (map snd (filter (\<lambda>ir. draw (bits seed (fst ir)) < fraction_of fractions (label (snd ir)))
                                (enumerate 0 df)))
      else Inl IllegalArgumentException)"

text \<open>
  \<^verbatim>\<open>df_final = df_merged.sampleBy(col=label_column, fractions={0:f_negative, 1:f_positive}, seed=123)\<close>
\<close>

definition df_final :: "(int \<Rightarrow> nat \<Rightarrow> nat) \<Rightarrow> 'k row list \<Rightarrow> real \<Rightarrow> real \<Rightarrow> error + 'k row list" where
  "df_final bits df_merged f_neg f_pos = sampleBy bits df_merged [(0, f_neg), (1, f_pos)] 123"

subsection \<open>The end-to-end scenario\<close>

definition scenario_periods :: "(string \<times> int option) list list" where
  "scenario_periods =
     [[(''A'', Some 0), (''B'', Some 1), (''A'', Some 1)],
      [(''A'', Some 0)],
      [(''B'', Some 0), (''C'', Some 0)]]"

section \<open>Filename generator: properties\<close>

lemma py_getitem_in_range:
  assumes "- int (length xs) \<le> j" and "j < int (length xs)"
  shows "py_getitem xs j = Inr (xs ! nat (j mod int (length xs)))"
proof (cases "0 \<le> j")
  case True
  with assms show ?thesis by (simp add: py_getitem_def)
next
  case False
  with assms have "j mod int (length xs) = j + int (length xs)"
    by (smt (verit) mod_add_self2 mod_pos_pos_trivial)
  with False assms show ?thesis by (simp add: py_getitem_def)
qed

lemma py_getitem_out_of_range:
  assumes "j < - int (length xs) \<or> int (length xs) \<le> j"
  shows "py_getitem xs j = Inl IndexError"
  using assms by (auto simp: py_getitem_def)

text \<open>
  Claim C10. For every index \<open>i\<close> with \<open>0 \<le> i \<le> len(suffixes) - 2\<close> the function returns the
  directory joined with \<open>fbase + suffixes[i+1] + ftype\<close>: the lookup is one-based, so index 0
  reads position 1 of the table (or fails when there is none) and never position 0. For every
  negative index \<open>i\<close> with \<open>-len(suffixes) \<le> i \<le> -1\<close> the function returns a path, read from
  the table by negative indexing, instead of failing.
\<close>

theorem full_filename_one_based_lookup:
  "(0 \<le> i \<and> i \<le> int (length suff) - 2 \<longrightarrow>
      full_filename i fpath fbase suff ftype =
        Inr (os_path_join fpath (fbase @ suff ! nat (i + 1) @ ftype)))
   \<and> full_filename 0 fpath fbase suff ftype =
        (if length suff < 2 then Inl IndexError
         else Inr (os_path_join fpath (fbase @ suff ! 1 @ ftype)))
   \<and> (- int (length suff) \<le> i \<and> i \<le> - 1 \<longrightarrow>
        full_filename i fpath fbase suff ftype =
          Inr (os_path_join fpath (fbase @ suff ! nat ((i + 1) mod int (length suff)) @ ftype)))"
proof (intro conjI impI)
  assume "0 \<le> i \<and> i \<le> int (length suff) - 2"
  then show "full_filename i fpath fbase suff ftype =
        Inr (os_path_join fpath (fbase @ suff ! nat (i + 1) @ ftype))"
    by (simp add: full_filename_def py_getitem_def)
next
  show "full_filename 0 fpath fbase suff ftype =
        (if length suff < 2 then Inl IndexError
         else Inr (os_path_join fpath (fbase @ suff ! 1 @ ftype)))"
    by (auto simp: full_filename_def py_getitem_def)
next
  assume "- int (length suff) \<le> i \<and> i \<le> - 1"
  then have "py_getitem suff (i + 1) = Inr (suff ! nat ((i + 1) mod int (length suff)))"
    by (intro py_getitem_in_range) auto
  then show "full_filename i fpath fbase suff ftype =
          Inr (os_path_join fpath (fbase @ suff ! nat ((i + 1) mod int (length suff)) @ ftype))"
    by (simp add: full_filename_def)
qed

text \<open>The one-based lookup on the notebook's configuration, at indices 0, 11, -1 and -13.\<close>

theorem full_filename_one_based_lookup_witness:
  "full_filename 0 file_path file_base suffixes file_type = Inr ''/project_data/data_asset/customers_Jan.csv''
   \<and> full_filename 11 file_path file_base suffixes file_type = Inr ''/project_data/data_asset/customers_Dec.csv''
   \<and> full_filename (- 1) file_path file_base suffixes file_type = Inr ''/project_data/data_asset/customers_.csv''
   \<and> full_filename (- 13) file_path file_base suffixes file_type = Inr ''/project_data/data_asset/customers_Jan.csv''"
  using full_filename_one_based_lookup [of 0 suffixes file_path file_base file_type]
        full_filename_one_based_lookup [of 11 suffixes file_path file_base file_type]
        full_filename_one_based_lookup [of "- 1" suffixes file_path file_base file_type]
        full_filename_one_based_lookup [of "- 13" suffixes file_path file_base file_type]
  by (simp add: suffixes_def month_abbr_def file_path_def local_path_def file_base_def
        file_type_def os_path_join_def)

text \<open>
  Claim C7, as amended. \<open>full_filename\<close> is a function of its arguments alone. It fails, and
  then with \<open>IndexError\<close>, if and only if \<open>index + 1\<close> lies outside the index range
  \<open>[-len, len)\<close> of the suffix table; for every other index it returns the directory joined
  with prefix, selected suffix and extension.
\<close>

theorem full_filename_index_error_iff:
  "((\<exists>e. full_filename i fpath fbase suff ftype = Inl e) \<longleftrightarrow>
       (i + 1 < - int (length suff) \<or> int (length suff) \<le> i + 1))
   \<and> (full_filename i fpath fbase suff ftype = Inl IndexError \<longleftrightarrow>
       (i + 1 < - int (length suff) \<or> int (length suff) \<le> i + 1))
   \<and> (- int (length suff) \<le> i + 1 \<and> i + 1 < int (length suff) \<longrightarrow>
        full_filename i fpath fbase suff ftype =
          Inr (os_path_join fpath (fbase @ suff ! nat ((i + 1) mod int (length suff)) @ ftype)))"
proof (cases "i + 1 < - int (length suff) \<or> int (length suff) \<le> i + 1")
  case True
  then have "full_filename i fpath fbase suff ftype = Inl IndexError"
    by (simp add: full_filename_def py_getitem_out_of_range)
  with True show ?thesis by auto
next
  case False
  then have "py_getitem suff (i + 1) = Inr (suff ! nat ((i + 1) mod int (length suff)))"
    by (intro py_getitem_in_range) auto
  then have "full_filename i fpath fbase suff ftype =
          Inr (os_path_join fpath (fbase @ suff ! nat ((i + 1) mod int (length suff)) @ ftype))"
    by (simp add: full_filename_def)
  with False show ?thesis by auto
qed

text \<open>The failure condition on the notebook's configuration, at indices 12, -15 and 3.\<close>

theorem full_filename_index_error_iff_witness:
  "full_filename 12 file_path file_base suffixes file_type = Inl IndexError
   \<and> full_filename (- 15) file_path file_base suffixes file_type = Inl IndexError
   \<and> full_filename 3 file_path file_base suffixes file_type = Inr ''/project_data/data_asset/customers_Apr.csv''"
  using full_filename_index_error_iff [of 12 file_path file_base suffixes file_type]
        full_filename_index_error_iff [of "- 15" file_path file_base suffixes file_type]
        full_filename_index_error_iff [of 3 file_path file_base suffixes file_type]
  by (simp add: suffixes_def month_abbr_def file_path_def local_path_def file_base_def
        file_type_def os_path_join_def)

text \<open>
  Claim C7 as stated fails: index 12 is in the domain of the thirteen-entry table, yet
  \<open>full_filename 12\<close> raises \<open>IndexError\<close>; index -14 is outside the domain of the table,
  yet \<open>full_filename (-14)\<close> returns a path.
\<close>

theorem full_filename_domain_counterexample:
  "py_getitem suffixes 12 = Inr ''Dec''
   \<and> full_filename 12 file_path file_base suffixes file_type = Inl IndexError
   \<and> py_getitem suffixes (- 14) = Inl IndexError
   \<and> full_filename (- 14) file_path file_base suffixes file_type
       = Inr ''/project_data/data_asset/customers_.csv''"
  by (simp add: full_filename_def py_getitem_def suffixes_def month_abbr_def file_path_def
        local_path_def file_base_def file_type_def os_path_join_def)

section \<open>Merge-aggregate accumulator: properties\<close>

lemma max_label_None_right [simp]: "max_label x None = x"
  by (cases x) simp_all

lemma max_label_assoc: "max_label (max_label x y) z = max_label x (max_label y z)"
  by (cases x; cases y; cases z) simp_all

lemma max_label_commute: "max_label x y = max_label y x"
  by (cases x; cases y) simp_all

lemma agg_max_Nil [simp]: "agg_max [] = None"
  by (simp add: agg_max_def)

lemma agg_max_Cons [simp]: "agg_max (x # xs) = max_label x (agg_max xs)"
  by (simp add: agg_max_def)

lemma agg_max_append: "agg_max (xs @ ys) = max_label (agg_max xs) (agg_max ys)"
  by (induction xs) (simp_all add: max_label_assoc)

lemma finite_some_labels: "finite {a. Some a \<in> set ls}"
proof -
  have "{a. Some a \<in> set ls} \<subseteq> the ` set ls" by force
  then show ?thesis by (rule finite_subset) simp
qed

lemma agg_max_eq_Max:
  "agg_max ls = (if {a. Some a \<in> set ls} = {} then None else Some (Max {a. Some a \<in> set ls}))"
proof (induction ls)
  case Nil
  show ?case by simp
next
  case (Cons x ls)
  define S where "S = {a. Some a \<in> set ls}"
  have fin: "finite S"
    unfolding S_def by (rule finite_some_labels)
  have IH: "agg_max ls = (if S = {} then None else Some (Max S))"
    unfolding S_def by (rule Cons.IH)
  show ?case
  proof (cases x)
    case None
    then have "{a. Some a \<in> set (x # ls)} = S"
      unfolding S_def by auto
    with None IH show ?thesis by simp
  next
    case (Some b)
    then have ins: "{a. Some a \<in> set (x # ls)} = insert b S"
      unfolding S_def by auto
    have "max_label (Some b) (agg_max ls) = Some (Max (insert b S))"
    proof (cases "S = {}")
      case True
      with IH show ?thesis by simp
    next
      case False
      with IH fin show ?thesis by simp
    qed
    with Some ins show ?thesis by simp
  qed
qed

lemma agg_max_cong_set: "set xs = set ys \<Longrightarrow> agg_max xs = agg_max ys"
  by (simp add: agg_max_eq_Max)

lemma filter_eq_distinct:
  "distinct xs \<Longrightarrow> filter (\<lambda>x. x = k) xs = (if k \<in> set xs then [k] else [])"
  by (induction xs) auto

lemma map_ident_groupBy_agg: "map ident (groupBy_agg df) = remdups (map ident df)"
  by (simp add: groupBy_agg_def comp_def)

lemma distinct_ident_groupBy_agg: "distinct (map ident (groupBy_agg df))"
  by (simp add: map_ident_groupBy_agg)

lemma ident_set_groupBy_agg: "ident ` set (groupBy_agg df) = ident ` set df"
proof -
  have "set (map ident (groupBy_agg df)) = set (map ident df)"
    by (simp add: map_ident_groupBy_agg)
  then show ?thesis by simp
qed

lemma group_of_groupBy_agg:
  "group_of k (groupBy_agg df) =
     (if k \<in> ident ` set df
      then [\<lparr>ident = k, label = group_label df k, period_count = group_count df k\<rparr>]
      else [])"
proof -
  have "group_of k (groupBy_agg df) =
          map (\<lambda>k. \<lparr>ident = k, label = group_label df k, period_count = group_count df k\<rparr>)
              (filter (\<lambda>x. x = k) (remdups (map ident df)))"
    by (simp add: group_of_def groupBy_agg_def filter_map comp_def group_label_def group_count_def)
  then show ?thesis
    by (simp add: filter_eq_distinct)
qed

lemma group_of_empty: "k \<notin> ident ` set df \<Longrightarrow> group_of k df = []"
  by (auto simp: group_of_def filter_empty_conv)

lemma group_label_groupBy_agg: "group_label (groupBy_agg df) k = group_label df k"
proof (cases "k \<in> ident ` set df")
  case True
  then show ?thesis
    by (simp add: group_label_def [of "groupBy_agg df"] group_of_groupBy_agg)
next
  case False
  then show ?thesis
    by (simp add: group_label_def group_of_groupBy_agg group_of_empty)
qed

lemma group_count_groupBy_agg: "group_count (groupBy_agg df) k = group_count df k"
proof (cases "k \<in> ident ` set df")
  case True
  then show ?thesis
    by (simp add: group_count_def [of "groupBy_agg df"] group_of_groupBy_agg agg_sum_def)
next
  case False
  then show ?thesis
    by (simp add: group_count_def group_of_groupBy_agg group_of_empty)
qed

lemma group_label_append:
  "group_label (a @ b) k = max_label (group_label a k) (group_label b k)"
  by (simp add: group_label_def group_of_def agg_max_append)

lemma group_count_append: "group_count (a @ b) k = group_count a k + group_count b k"
  by (simp add: group_count_def group_of_def agg_sum_def)

lemma group_of_with_period_count:
  "group_of k (with_period_count p) = with_period_count (filter (\<lambda>r. fst r = k) p)"
  by (induction p) (auto simp: group_of_def with_period_count_def)

lemma group_label_with_period_count:
  "group_label (with_period_count p) k = agg_max (map snd (filter (\<lambda>r. fst r = k) p))"
  by (simp add: group_label_def group_of_with_period_count)
     (simp add: with_period_count_def comp_def case_prod_unfold)

lemma group_count_with_period_count:
  "group_count (with_period_count p) k = int (length (filter (\<lambda>r. fst r = k) p))"
  by (simp add: group_count_def group_of_with_period_count agg_sum_def)
     (simp add: with_period_count_def comp_def case_prod_unfold sum_list_triv)

lemma ident_set_with_period_count: "ident ` set (with_period_count p) = fst ` set p"
  by (force simp: with_period_count_def)

lemma group_label_merge_step:
  "group_label (merge_step T p) k =
     max_label (agg_max (map snd (filter (\<lambda>r. fst r = k) p))) (group_label T k)"
  by (simp add: merge_step_def union_df_def group_label_groupBy_agg group_label_append
        group_label_with_period_count)

lemma group_count_merge_step:
  "group_count (merge_step T p) k = int (length (filter (\<lambda>r. fst r = k) p)) + group_count T k"
  by (simp add: merge_step_def union_df_def group_count_groupBy_agg group_count_append
        group_count_with_period_count)

lemma ident_set_merge_step: "ident ` set (merge_step T p) = fst ` set p \<union> ident ` set T"
  by (simp add: merge_step_def union_df_def ident_set_groupBy_agg image_Un
        ident_set_with_period_count)

lemma distinct_ident_merge_step: "distinct (map ident (merge_step T p))"
  by (simp add: merge_step_def distinct_ident_groupBy_agg)

lemma group_label_foldl:
  "group_label (foldl merge_step T ps) k =
     max_label (group_label T k) (agg_max (map snd (occurrences k ps)))"
proof (induction ps arbitrary: T)
  case Nil
  show ?case by (simp add: occurrences_def)
next
  case (Cons p ps)
  have "occurrences k (p # ps) = filter (\<lambda>r. fst r = k) p @ occurrences k ps"
    by (simp add: occurrences_def)
  then show ?case
    by (simp add: Cons.IH group_label_merge_step agg_max_append max_label_assoc
          max_label_commute [of "group_label T k"])
qed

lemma group_count_foldl:
  "group_count (foldl merge_step T ps) k = group_count T k + int (length (occurrences k ps))"
proof (induction ps arbitrary: T)
  case Nil
  show ?case by (simp add: occurrences_def)
next
  case (Cons p ps)
  have "occurrences k (p # ps) = filter (\<lambda>r. fst r = k) p @ occurrences k ps"
    by (simp add: occurrences_def)
  then show ?case
    by (simp add: Cons.IH group_count_merge_step)
qed

lemma ident_set_foldl:
  "ident ` set (foldl merge_step T ps) = ident ` set T \<union> fst ` set (concat ps)"
  by (induction ps arbitrary: T) (auto simp: ident_set_merge_step)

lemma distinct_ident_foldl:
  "distinct (map ident T) \<Longrightarrow> distinct (map ident (foldl merge_step T ps))"
  by (induction ps arbitrary: T) (simp_all add: distinct_ident_merge_step)

lemma group_of_distinct:
  "distinct (map ident T) \<Longrightarrow> r \<in> set T \<Longrightarrow> group_of (ident r) T = [r]"
proof (induction T)
  case Nil
  then show ?case by simp
next
  case (Cons x T)
  show ?case
  proof (cases "r = x")
    case True
    with Cons.prems have "group_of (ident r) T = []"
      by (intro group_of_empty) auto
    with True show ?thesis by (simp add: group_of_def)
  next
    case False
    with Cons.prems have rT: "r \<in> set T" by simp
    with Cons.prems have "ident x \<noteq> ident r" by force
    with Cons rT show ?thesis by (simp add: group_of_def)
  qed
qed

lemma group_label_merge_all:
  "group_label (merge_all ps) k = agg_max (map snd (occurrences k ps))"
  unfolding merge_all_def group_label_foldl
  by (simp add: group_label_def group_of_def)

lemma group_count_merge_all:
  "group_count (merge_all ps) k = int (length (occurrences k ps))"
  unfolding merge_all_def group_count_foldl
  by (simp add: group_count_def group_of_def agg_sum_def)

lemma ident_set_merge_all: "ident ` set (merge_all ps) = fst ` set (concat ps)"
  by (simp add: merge_all_def ident_set_foldl)

lemma distinct_ident_merge_all: "distinct (map ident (merge_all ps))"
  by (simp add: merge_all_def distinct_ident_foldl)

lemma row_of_merge_all:
  assumes "r \<in> set (merge_all ps)"
  shows "label r = agg_max (map snd (occurrences (ident r) ps))"
    and "period_count r = int (length (occurrences (ident r) ps))"
proof -
  have g: "group_of (ident r) (merge_all ps) = [r]"
    using assms distinct_ident_merge_all by (rule group_of_distinct [rotated])
  have "group_label (merge_all ps) (ident r) = label r"
    by (simp add: group_label_def g)
  then show "label r = agg_max (map snd (occurrences (ident r) ps))"
    by (simp add: group_label_merge_all)
  have "group_count (merge_all ps) (ident r) = period_count r"
    by (simp add: group_count_def g agg_sum_def)
  then show "period_count r = int (length (occurrences (ident r) ps))"
    by (simp add: group_count_merge_all)
qed

lemma merge_all_scenario:
  "merge_all scenario_periods =
     [\<lparr>ident = ''C'', label = Some 0, period_count = 1\<rparr>,
      \<lparr>ident = ''B'', label = Some 1, period_count = 2\<rparr>,
      \<lparr>ident = ''A'', label = Some 1, period_count = 3\<rparr>]"
  by (simp add: merge_all_def scenario_periods_def merge_step_def union_df_def
        with_period_count_def groupBy_agg_def group_of_def agg_max_def agg_sum_def)

lemma mset_concat_cong:
  assumes "mset ps = mset qs"
  shows "mset (concat ps) = mset (concat qs)"
proof -
  have "mset (concat ps) = \<Sum>\<^sub># (image_mset mset (mset ps))"
    by (simp add: mset_concat flip: sum_mset_sum_list)
  also have "\<dots> = \<Sum>\<^sub># (image_mset mset (mset qs))"
    by (simp add: assms)
  also have "\<dots> = mset (concat qs)"
    by (simp add: mset_concat flip: sum_mset_sum_list)
  finally show ?thesis .
qed

lemma mset_occurrences_cong:
  assumes "mset ps = mset qs"
  shows "mset (occurrences k ps) = mset (occurrences k qs)"
  using mset_concat_cong [OF assms] by (simp add: occurrences_def)

lemma set_merge_all:
  "set (merge_all ps) =
     (\<lambda>k. \<lparr>ident = k, label = agg_max (map snd (occurrences k ps)),
            period_count = int (length (occurrences k ps))\<rparr>) ` fst ` set (concat ps)"
  (is "?L = ?f ` ?K")
proof (intro set_eqI iffI)
  fix r assume r: "r \<in> ?L"
  then have "ident r \<in> ?K"
    using ident_set_merge_all [of ps] by blast
  moreover have "r = ?f (ident r)"
    using row_of_merge_all [OF r] by simp
  ultimately show "r \<in> ?f ` ?K" by blast
next
  fix r assume "r \<in> ?f ` ?K"
  then obtain k where k: "k \<in> ?K" and rk: "r = ?f k" by blast
  from k obtain r' where r': "r' \<in> ?L" and "ident r' = k"
    using ident_set_merge_all [of ps] by (metis imageE)
  with row_of_merge_all [OF r'] have "r' = ?f k" by simp
  with r' rk show "r \<in> ?L" by simp
qed

lemma distinct_merge_all: "distinct (merge_all ps)"
  using distinct_ident_merge_all [of ps] by (simp add: distinct_map)

text \<open>
  Claim C5. Merge order-invariance: two orderings of the same multiset of period inputs give
  the same final table (the same multiset of rows).
\<close>

theorem merge_all_order_invariant:
  assumes "mset ps = mset qs"
  shows "mset (merge_all ps) = mset (merge_all qs)"
proof -
  have occ: "mset (occurrences k ps) = mset (occurrences k qs)" for k
    by (rule mset_occurrences_cong [OF assms])
  have len: "length (occurrences k ps) = length (occurrences k qs)" for k
    using occ [of k] by (metis size_mset)
  have lab: "agg_max (map snd (occurrences k ps)) = agg_max (map snd (occurrences k qs))" for k
  proof (rule agg_max_cong_set)
    have "set (occurrences k ps) = set (occurrences k qs)"
      using occ [of k] by (rule mset_eq_setD)
    then show "set (map snd (occurrences k ps)) = set (map snd (occurrences k qs))"
      by simp
  qed
  have "set (concat ps) = set (concat qs)"
    using mset_concat_cong [OF assms] by (rule mset_eq_setD)
  then have "set (merge_all ps) = set (merge_all qs)"
    by (simp add: set_merge_all len lab)
  then show ?thesis
    by (simp add: set_eq_iff_mset_eq_distinct [symmetric] distinct_merge_all)
qed

text \<open>The three periods of the end-to-end scenario, folded as [1,2,3] and as [3,1,2].\<close>

theorem merge_all_order_invariant_witness:
  "mset (merge_all [[(''A'', Some 0), (''B'', Some 1), (''A'', Some 1)],
                    [(''A'', Some 0)],
                    [(''B'', Some 0), (''C'', Some (0::int))]])
   = mset (merge_all [[(''B'', Some 0), (''C'', Some 0)],
                      [(''A'', Some 0), (''B'', Some 1), (''A'', Some 1)],
                      [(''A'', Some 0)]])"
  using merge_all_order_invariant
    [of "[[(''A'', Some 0), (''B'', Some 1), (''A'', Some 1)],
          [(''A'', Some 0)],
          [(''B'', Some 0), (''C'', Some (0::int))]]"
        "[[(''B'', Some 0), (''C'', Some 0)],
          [(''A'', Some 0), (''B'', Some 1), (''A'', Some 1)],
          [(''A'', Some 0)]]"]
  by (simp add: add_mset_commute)

text \<open>
  Claim C1. For every finite sequence of periods whose labels are 0 or 1, the merged table
  holds each identifier that occurs in some period exactly once (and no other identifier);
  the label of its row is the maximum of the labels of all its row occurrences, that is 1
  when some occurrence is labelled 1 and 0 otherwise; and its \<open>period_count\<close> is the number of
  its row occurrences across all periods.
\<close>

theorem merge_all_aggregates:
  assumes "list_all binary_labels periods"
  shows "(\<forall>k. length (group_of k (merge_all periods)) =
               (if k \<in> fst ` set (concat periods) then 1 else 0))
       \<and> (\<forall>r \<in> set (merge_all periods).
            label r = Some (Max {l. (ident r, Some l) \<in> set (concat periods)})
          \<and> label r = Some (if (ident r, Some 1) \<in> set (concat periods) then 1 else 0)
          \<and> period_count r = int (length (occurrences (ident r) periods)))"
proof (intro conjI allI ballI)
  fix k :: 'a
  show "length (group_of k (merge_all periods)) =
          (if k \<in> fst ` set (concat periods) then 1 else 0)"
  proof (cases "k \<in> fst ` set (concat periods)")
    case True
    then obtain r where r: "r \<in> set (merge_all periods)" and "ident r = k"
      using ident_set_merge_all [of periods] by (metis imageE)
    with group_of_distinct [OF distinct_ident_merge_all r] True show ?thesis by auto
  next
    case False
    then have "group_of k (merge_all periods) = []"
      by (intro group_of_empty) (simp add: ident_set_merge_all)
    with False show ?thesis by simp
  qed
next
  fix r assume r: "r \<in> set (merge_all periods)"
  define S where "S = {l. (ident r, Some l) \<in> set (concat periods)}"
  have S_eq: "{a. Some a \<in> set (map snd (occurrences (ident r) periods))} = S"
    unfolding S_def occurrences_def by force
  have "ident r \<in> fst ` set (concat periods)"
    using r ident_set_merge_all [of periods] by blast
  then obtain l where l: "(ident r, l) \<in> set (concat periods)" by force
  have bin: "l = Some 0 \<or> l = Some 1" if "(k, l) \<in> set (concat periods)" for k l
    using assms that by (fastforce simp: list_all_iff binary_labels_def)
  from l bin have ne: "S \<noteq> {}"
    unfolding S_def by blast
  have sub: "S \<subseteq> {0, 1}"
    unfolding S_def using bin by auto
  then have fin: "finite S" by (rule finite_subset) simp
  have "agg_max (map snd (occurrences (ident r) periods)) =
          (if S = {} then None else Some (Max S))"
    using agg_max_eq_Max [of "map snd (occurrences (ident r) periods)"] unfolding S_eq .
  with ne row_of_merge_all(1) [OF r] have lab: "label r = Some (Max S)"
    by simp
  then show "label r = Some (Max {l. (ident r, Some l) \<in> set (concat periods)})"
    by (simp add: S_def)
  have "Max S = (if 1 \<in> S then 1 else 0)"
  proof (cases "1 \<in> S")
    case True
    with fin sub show ?thesis by (intro Max_eqI) auto
  next
    case False
    with sub ne have "S = {0}" by auto
    with False show ?thesis by simp
  qed
  with lab show "label r = Some (if (ident r, Some 1) \<in> set (concat periods) then 1 else 0)"
    by (simp add: S_def)
  show "period_count r = int (length (occurrences (ident r) periods))"
    by (rule row_of_merge_all(2) [OF r])
qed

text \<open>The aggregation laws on the end-to-end scenario, for identifier A (present) and D (absent).\<close>

theorem merge_all_aggregates_witness:
  "list_all binary_labels scenario_periods
   \<and> length (group_of ''A'' (merge_all scenario_periods)) = 1
   \<and> length (group_of ''D'' (merge_all scenario_periods)) = 0
   \<and> \<lparr>ident = ''A'', label = Some 1, period_count = 3\<rparr> \<in> set (merge_all scenario_periods)
   \<and> (''A'', Some 1) \<in> set (concat scenario_periods)
   \<and> int (length (occurrences ''A'' scenario_periods)) = 3"
proof -
  have h: "list_all binary_labels scenario_periods"
    by (simp add: scenario_periods_def binary_labels_def)
  from merge_all_aggregates [OF h]
  have "length (group_of ''A'' (merge_all scenario_periods)) =
          (if ''A'' \<in> fst ` set (concat scenario_periods) then 1 else 0)"
    and "length (group_of ''D'' (merge_all scenario_periods)) =
          (if ''D'' \<in> fst ` set (concat scenario_periods) then 1 else 0)"
    by blast+
  with h show ?thesis
    by (simp add: merge_all_scenario) (simp add: scenario_periods_def occurrences_def)
qed

text \<open>
  Claim C4 fails on the code. One period with two rows for A gives A a \<open>period_count\<close> of 2,
  though A appeared in one period; in the end-to-end scenario A has \<open>period_count\<close> 3 and
  appeared in two periods.
\<close>

theorem period_count_counts_rows_not_periods:
  "merge_all [[(''A'', Some 0), (''A'', Some 1)]]
     = [\<lparr>ident = ''A'', label = Some 1, period_count = 2\<rparr>]
   \<and> periods_containing ''A'' [[(''A'', Some 0), (''A'', Some (1::int))]] = 1
   \<and> \<lparr>ident = ''A'', label = Some 1, period_count = 3\<rparr> \<in> set (merge_all scenario_periods)
   \<and> periods_containing ''A'' scenario_periods = 2"
  by (simp add: merge_all_scenario)
     (simp add: merge_all_def merge_step_def union_df_def with_period_count_def groupBy_agg_def
        group_of_def agg_max_def agg_sum_def periods_containing_def scenario_periods_def)

section \<open>The end-to-end scenario and the sampling fractions\<close>

lemma eligible_scenario:
  "eligible 2 (merge_all scenario_periods) =
     [\<lparr>ident = ''B'', label = Some 1, period_count = 2\<rparr>,
      \<lparr>ident = ''A'', label = Some 1, period_count = 3\<rparr>]"
  by (simp add: merge_all_scenario eligible_def)

text \<open>
  Claim C2 as stated fails: in the scenario both eligible identifiers are positive, so
  \<open>n_positive = n_total = 2\<close> and the fraction cell raises \<open>ZeroDivisionError\<close>; it does not
  produce the fractions \<open>(1.0, 1.0)\<close>.
\<close>

theorem scenario_fractions_counterexample:
  "n_total (eligible 2 (merge_all scenario_periods)) = 2
   \<and> n_positive (eligible 2 (merge_all scenario_periods)) = 2
   \<and> sampling_fractions 2 0.5 (n_total (eligible 2 (merge_all scenario_periods)))
        (n_positive (eligible 2 (merge_all scenario_periods))) = Inl ZeroDivisionError
   \<and> sampling_fractions 2 0.5 (n_total (eligible 2 (merge_all scenario_periods)))
        (n_positive (eligible 2 (merge_all scenario_periods))) \<noteq> Inr (1, 1)"
  by (simp add: eligible_scenario n_total_def n_positive_def label_positive_def sampling_fractions_def
        f_positive_def f_negative_def py_truediv_def)

text \<open>
  Claim C2, as amended. In the scenario the merged table is A:(1,3), B:(1,2), C:(0,1); with
  \<open>min_periods = 2\<close> the eligible rows are those of A and B; both are positive, so
  \<open>n_total = 2\<close> and \<open>n_positive = 2\<close>; with target size 2 and positive fraction 0.5,
  \<open>f_positive\<close> is \<open>2 * 0.5 / 2 = 0.5\<close> and the computation of \<open>f_negative\<close> divides by
  \<open>n_total - n_positive = 0\<close> and raises \<open>ZeroDivisionError\<close>, which ends the cell.
\<close>

theorem scenario_end_to_end:
  "mset (merge_all scenario_periods) =
     {#\<lparr>ident = ''A'', label = Some 1, period_count = 3\<rparr>,
       \<lparr>ident = ''B'', label = Some 1, period_count = 2\<rparr>,
       \<lparr>ident = ''C'', label = Some 0, period_count = 1\<rparr>#}
   \<and> mset (eligible 2 (merge_all scenario_periods)) =
     {#\<lparr>ident = ''A'', label = Some 1, period_count = 3\<rparr>,
       \<lparr>ident = ''B'', label = Some 1, period_count = 2\<rparr>#}
   \<and> n_total (eligible 2 (merge_all scenario_periods)) = 2
   \<and> n_positive (eligible 2 (merge_all scenario_periods)) = 2
   \<and> f_positive 2 0.5 (n_positive (eligible 2 (merge_all scenario_periods))) = Inr 0.5
   \<and> f_negative 2 0.5 (n_total (eligible 2 (merge_all scenario_periods)))
        (n_positive (eligible 2 (merge_all scenario_periods))) = Inl ZeroDivisionError
   \<and> sampling_fractions 2 0.5 (n_total (eligible 2 (merge_all scenario_periods)))
        (n_positive (eligible 2 (merge_all scenario_periods))) = Inl ZeroDivisionError"
  by (simp add: eligible_scenario n_total_def n_positive_def label_positive_def sampling_fractions_def
        f_positive_def f_negative_def py_truediv_def)
     (simp add: merge_all_scenario)





section \<open>Period reader: properties\<close>






section \<open>Stratified sampler: properties\<close>

lemma draw_nonneg: "0 \<le> draw k"
  by (simp add: draw_def)

lemma fraction_of_positive:
  assumes "0 < fraction_of fractions stratum"
  shows "\<exists>l. stratum = Some l \<and> l \<in> fst ` set fractions"
proof (cases stratum)
  case None
  with assms show ?thesis by (simp add: fraction_of_def)
next
  case (Some l)
  with assms obtain f where "map_of fractions l = Some f"
    by (cases "map_of fractions l") (auto simp: fraction_of_def)
  then have "(l, f) \<in> set fractions" by (rule map_of_SomeD)
  then have "l \<in> fst ` set fractions" by force
  with Some show ?thesis by simp
qed

lemma sampleBy_row:
  assumes "sampleBy bits df fractions seed = Inr out" and "r \<in> set out"
  shows "r \<in> set df \<and> (\<exists>i. draw (bits seed i) < fraction_of fractions (label r))"
proof -
  from assms(1) have out: "out = map snd (filter (\<lambda>ir. draw (bits seed (fst ir))
        < fraction_of fractions (label (snd ir))) (enumerate 0 df))"
    by (simp add: sampleBy_def split: if_splits)
  with assms(2) obtain i where "(i, r) \<in> set (enumerate 0 df)"
    and "draw (bits seed i) < fraction_of fractions (label r)"
    by auto
  then show ?thesis
    by (auto simp: in_set_enumerate_eq)
qed

lemma sampleBy_mapped:
  assumes "sampleBy bits df fractions seed = Inr out" and "r \<in> set out"
  shows "r \<in> set df \<and> (\<exists>l. label r = Some l \<and> l \<in> fst ` set fractions)"
proof -
  from sampleBy_row [OF assms] obtain i
    where "r \<in> set df" and "draw (bits seed i) < fraction_of fractions (label r)"
    by blast
  moreover have "0 \<le> draw (bits seed i)" by (rule draw_nonneg)
  ultimately have "r \<in> set df" and "0 < fraction_of fractions (label r)" by simp_all
  then show ?thesis using fraction_of_positive by blast
qed

text \<open>
  Claim C9. Every row of the sampler's output is a row of its input whose label is a key of
  the fraction mapping; a row whose label is not a key (a null label included) never appears
  in the output. With the keys 0 and 1 of the notebook's call, every label of \<open>df_final\<close> is
  0 or 1.
\<close>

theorem sampleBy_only_mapped_classes:
  assumes "sampleBy bits df fractions seed = Inr out"
  shows "(\<forall>r \<in> set out. r \<in> set df \<and> (\<exists>l. label r = Some l \<and> l \<in> fst ` set fractions))
       \<and> (\<forall>r \<in> set df. (\<forall>l. label r \<noteq> Some l \<or> l \<notin> fst ` set fractions) \<longrightarrow> r \<notin> set out)
       \<and> (\<forall>final. df_final bits df f_neg f_pos = Inr final \<longrightarrow>
            (\<forall>r \<in> set final. label r = Some 0 \<or> label r = Some 1))"
proof (intro conjI ballI allI impI)
  fix r assume "r \<in> set out"
  from sampleBy_mapped [OF assms this]
  show "r \<in> set df" and "\<exists>l. label r = Some l \<and> l \<in> fst ` set fractions"
    by simp_all
next
  fix r assume "r \<in> set df" and no: "\<forall>l. label r \<noteq> Some l \<or> l \<notin> fst ` set fractions"
  show "r \<notin> set out"
  proof
    assume "r \<in> set out"
    from sampleBy_mapped [OF assms this] obtain l
      where "label r = Some l" and "l \<in> fst ` set fractions" by blast
    with no show False by blast
  qed
next
  fix final r
  assume "df_final bits df f_neg f_pos = Inr final" and r: "r \<in> set final"
  then have "sampleBy bits df [(0, f_neg), (1, f_pos)] 123 = Inr final"
    by (simp add: df_final_def)
  from sampleBy_mapped [OF this r] obtain l
    where l: "label r = Some l" and "l \<in> fst ` set [(0::int, f_neg), (1, f_pos)]" by blast
  then have "l = 0 \<or> l = 1" by simp
  with l show "label r = Some 0 \<or> label r = Some 1" by blast
qed

text \<open>
  A table with labels 1, null, 2 and 0, sampled with the mapping \<open>{0: 0.5, 1: 1.0}\<close> and a
  generator that always draws 0: the rows labelled null and 2 are dropped.
\<close>

theorem sampleBy_only_mapped_classes_witness:
  "sampleBy (\<lambda>seed i. 0)
     [\<lparr>ident = ''A'', label = Some 1, period_count = 3\<rparr>,
      \<lparr>ident = ''N'', label = None, period_count = 3\<rparr>,
      \<lparr>ident = ''X'', label = Some 2, period_count = 3\<rparr>,
      \<lparr>ident = ''B'', label = Some 0, period_count = 3\<rparr>]
     [(0, 1 / 2), (1, 1)] 123
   = Inr [\<lparr>ident = ''A'', label = Some 1, period_count = 3\<rparr>,
          \<lparr>ident = ''B'', label = Some 0, period_count = 3\<rparr>]
   \<and> \<lparr>ident = ''N'', label = None, period_count = 3\<rparr>
       \<notin> set [\<lparr>ident = ''A'', label = Some 1, period_count = 3\<rparr>,
               \<lparr>ident = ''B'', label = Some 0, period_count = 3\<rparr>]
   \<and> df_final (\<lambda>seed i. 0)
        [\<lparr>ident = ''A'', label = Some 1, period_count = 3\<rparr>,
         \<lparr>ident = ''N'', label = None, period_count = 3\<rparr>,
         \<lparr>ident = ''X'', label = Some 2, period_count = 3\<rparr>,
         \<lparr>ident = ''B'', label = Some 0, period_count = 3\<rparr>] (1 / 2) 1
      = Inr [\<lparr>ident = ''A'', label = Some 1, period_count = 3\<rparr>,
             \<lparr>ident = ''B'', label = Some 0, period_count = 3\<rparr>]"
proof -
  have h: "sampleBy (\<lambda>seed i. 0)
     [\<lparr>ident = ''A'', label = Some 1, period_count = 3\<rparr>,
      \<lparr>ident = ''N'', label = None, period_count = 3\<rparr>,
      \<lparr>ident = ''X'', label = Some 2, period_count = 3\<rparr>,
      \<lparr>ident = ''B'', label = Some 0, period_count = 3\<rparr>]
     [(0, 1 / 2), (1, 1)] 123
   = Inr [\<lparr>ident = ''A'', label = Some 1, period_count = 3\<rparr>,
          \<lparr>ident = ''B'', label = Some 0, period_count = 3\<rparr>]"
    by (simp add: sampleBy_def draw_def fraction_of_def)
  show ?thesis
    using h sampleBy_only_mapped_classes [OF h, of "1 / 2" 1]
    by (simp add: df_final_def)
qed

end
